theory Spec2Isabelle
  imports Complex_Main
begin

section \<open>Python and numpy primitives used by the splitter\<close>

text \<open>
  The engine is \<^verbatim>\<open>class AudioSplitter\<close> of \<^verbatim>\<open>main.py\<close>. Times (seconds) and
  samples are Python floats in the source; here they are exact rationals, so every
  statement below is about the arithmetic the code writes down, without binary
  floating-point rounding. Sample indices and counts are Python ints (\<open>int\<close>), the
  sample rate is the positive int that the decoder returns (\<open>nat\<close>).
\<close>

text \<open>\<^verbatim>\<open>int(x)\<close> on a float: truncation toward zero.\<close>

definition py_int :: "rat \<Rightarrow> int" where
  "py_int x = (if 0 \<le> x then \<lfloor>x\<rfloor> else \<lceil>x\<rceil>)"

text \<open>\<^verbatim>\<open>round(x)\<close> on a float: the nearest integer, a tie going to the even one.\<close>

definition py_round :: "rat \<Rightarrow> int" where
  "py_round x =
     (let f = \<lfloor>x\<rfloor>; d = x - of_int f
      in if d < 1 / 2 then f
         else if 1 / 2 < d then f + 1
         else if even f then f else f + 1)"

text \<open>
  \<^verbatim>\<open>a[i:j]\<close> on a list or a one-dimensional array: a negative index counts from
  the end, both indices are clipped to the length, and the slice is empty when the end
  so obtained is not after the start.
\<close>

definition py_index :: "nat \<Rightarrow> int \<Rightarrow> int" where
  "py_index n i = (if i < 0 then max 0 (i + int n) else min i (int n))"

definition py_slice :: "'a list \<Rightarrow> int \<Rightarrow> int \<Rightarrow> 'a list" where
  "py_slice xs i j =
     (let lo = py_index (length xs) i; hi = py_index (length xs) j
      in take (nat (hi - lo)) (drop (nat lo) xs))"

text \<open>\<^verbatim>\<open>range(0, stop, step)\<close> for a positive step.\<close>

definition py_range0 :: "int \<Rightarrow> int \<Rightarrow> int list" where
  "py_range0 stop step = map (\<lambda>k. int k * step) [0 ..< nat ((stop + step - 1) div step)]"

text \<open>
  A numpy float is a number or NaN (\<open>None\<close>): \<^verbatim>\<open>np.mean\<close> of an empty window is
  NaN, and so is its square root.
\<close>

definition mean_square :: "rat list \<Rightarrow> rat option" where
  "mean_square w =
     (if w = [] then None else Some (sum_list (map (\<lambda>x. x * x) w) / of_nat (length w)))"

definition rms :: "rat list \<Rightarrow> real option" where
  "rms w = map_option (\<lambda>m. sqrt (real_of_rat m)) (mean_square w)"

text \<open>
  \<^verbatim>\<open>np.argmin\<close>: the index of the first NaN when there is one, otherwise the index
  of the first occurrence of the least value.
\<close>

fun first_index :: "('a \<Rightarrow> bool) \<Rightarrow> 'a list \<Rightarrow> nat" where
  "first_index P [] = 0"
| "first_index P (x # xs) = (if P x then 0 else Suc (first_index P xs))"

fun least_of :: "('a::linorder) option list \<Rightarrow> 'a option" where
  "least_of [] = None"
| "least_of (None # xs) = least_of xs"
| "least_of (Some v # xs) = (case least_of xs of None \<Rightarrow> Some v | Some m \<Rightarrow> Some (min v m))"

definition np_argmin :: "('a::linorder) option list \<Rightarrow> nat" where
  "np_argmin xs =
     (if None \<in> set xs then first_index (\<lambda>x. x = None) xs
      else first_index (\<lambda>x. x = least_of xs) xs)"

section \<open>Volume analysis and the split-point search\<close>

text \<open>
  \<^verbatim>\<open>analyze_audio_volume(audio_data, sample_rate, window_size)\<close>: the window has
  \<^verbatim>\<open>int(window_size * sample_rate)\<close> samples, the step is \<^verbatim>\<open>max(1, window_samples // 4)\<close>,
  and the loop runs over \<^verbatim>\<open>range(0, len(audio_data) - window_samples, step_samples)\<close>.
  It returns the pair (time points, RMS values). The division \<^verbatim>\<open>i / sample_rate\<close>
  raises for a zero sample rate; \<open>split_audio\<close> below never calls it with one.
\<close>

definition window_samples :: "nat \<Rightarrow> rat \<Rightarrow> int" where
  "window_samples sample_rate window_size = py_int (window_size * of_nat sample_rate)"

definition step_samples :: "nat \<Rightarrow> rat \<Rightarrow> int" where
  "step_samples sample_rate window_size = max 1 (window_samples sample_rate window_size div 4)"

definition window_starts :: "rat list \<Rightarrow> nat \<Rightarrow> rat \<Rightarrow> int list" where
  "window_starts audio_data sample_rate window_size =
     py_range0 (int (length audio_data) - window_samples sample_rate window_size)
       (step_samples sample_rate window_size)"

definition analyze_audio_volume :: "rat list \<Rightarrow> nat \<Rightarrow> rat \<Rightarrow> rat list \<times> real option list" where
  "analyze_audio_volume audio_data sample_rate window_size =
     (let w = window_samples sample_rate window_size;
          starts = window_starts audio_data sample_rate window_size
      in (map (\<lambda>i. of_int i / of_nat sample_rate) starts,
          map (\<lambda>i. rms (py_slice audio_data i (i + w))) starts))"

text \<open>
  \<^verbatim>\<open>find_optimal_split_point(audio_data, sample_rate, target_time, search_range)\<close>.
  Both early returns give back \<open>target_time\<close> as it came in; only the main path
  rounds to a sample.
\<close>

definition search_start :: "rat \<Rightarrow> rat \<Rightarrow> rat" where
  "search_start target_time search_range = max 0 (target_time - search_range / 2)"

definition search_end :: "rat list \<Rightarrow> nat \<Rightarrow> rat \<Rightarrow> rat \<Rightarrow> rat" where
  "search_end audio_data sample_rate target_time search_range =
     min (of_nat (length audio_data) / of_nat sample_rate) (target_time + search_range / 2)"

definition search_audio :: "rat list \<Rightarrow> nat \<Rightarrow> rat \<Rightarrow> rat \<Rightarrow> rat list" where
  "search_audio audio_data sample_rate target_time search_range =
     py_slice audio_data
       (py_int (search_start target_time search_range * of_nat sample_rate))
       (py_int (search_end audio_data sample_rate target_time search_range * of_nat sample_rate))"

definition find_optimal_split_point :: "rat list \<Rightarrow> nat \<Rightarrow> rat \<Rightarrow> rat \<Rightarrow> rat" where
  "find_optimal_split_point audio_data sample_rate target_time search_range =
     (let start_time = search_start target_time search_range;
          found = search_audio audio_data sample_rate target_time search_range
      in if found = [] then target_time
         else
           let (time_points, rms_values) = analyze_audio_volume found sample_rate (1 / 100)
           in if rms_values = [] then target_time
              else
                let optimal_time = start_time + time_points ! np_argmin rms_values;
                    optimal_sample = py_round (optimal_time * of_nat sample_rate)
                in of_int optimal_sample / of_nat sample_rate)"

section \<open>Planning the boundaries\<close>

text \<open>
  The body shared by the two planning loops: \<^verbatim>\<open>target_time = current_position + duration\<close>,
  then either the smart search or \<^verbatim>\<open>round(target_time * sample_rate) / sample_rate\<close>.
  The value appended to \<^verbatim>\<open>split_points\<close> is also the next \<^verbatim>\<open>current_position\<close>.
\<close>

definition precise_time :: "nat \<Rightarrow> rat \<Rightarrow> rat" where
  "precise_time sample_rate target_time =
     of_int (py_round (target_time * of_nat sample_rate)) / of_nat sample_rate"

definition next_split_point :: "rat list \<Rightarrow> nat \<Rightarrow> bool \<Rightarrow> rat \<Rightarrow> rat \<Rightarrow> rat" where
  "next_split_point audio_data sample_rate smart_split search_range target_time =
     (if smart_split
      then find_optimal_split_point audio_data sample_rate target_time search_range
      else precise_time sample_rate target_time)"

text \<open>
  The loop itself, over the durations in order; \<open>place\<close> is the body above with the
  buffer, the sample rate and the two options fixed. It returns the entries appended.
\<close>

fun walk :: "(rat \<Rightarrow> rat) \<Rightarrow> rat \<Rightarrow> rat list \<Rightarrow> rat list" where
  "walk place current_position [] = []"
| "walk place current_position (duration # durations) =
     (let p = place (current_position + duration) in p # walk place p durations)"

text \<open>
  \<^verbatim>\<open>_split_audio_fixed\<close>: \<^verbatim>\<open>num_segments = math.ceil(total_duration / segment_duration)\<close>,
  the loop \<^verbatim>\<open>for i in range(1, num_segments)\<close> adds the same duration each time, and
  \<open>total_duration\<close> is appended after it.
\<close>

definition num_segments :: "rat \<Rightarrow> rat \<Rightarrow> int" where
  "num_segments total_duration segment_duration = \<lceil>total_duration / segment_duration\<rceil>"

definition fixed_split_points :: "rat list \<Rightarrow> nat \<Rightarrow> rat \<Rightarrow> rat \<Rightarrow> bool \<Rightarrow> rat \<Rightarrow> rat list" where
  "fixed_split_points audio_data sample_rate total_duration segment_duration smart_split search_range =
     0 # walk (next_split_point audio_data sample_rate smart_split search_range) 0
           (replicate (nat (num_segments total_duration segment_duration - 1)) segment_duration)
       @ [total_duration]"

text \<open>
  \<^verbatim>\<open>_split_audio_custom\<close>: the list starts as \<^verbatim>\<open>[0]\<close> and gets one entry for each
  duration; nothing is appended after the loop.
\<close>

definition custom_split_points :: "rat list \<Rightarrow> nat \<Rightarrow> rat list \<Rightarrow> bool \<Rightarrow> rat \<Rightarrow> rat list" where
  "custom_split_points audio_data sample_rate custom_durations smart_split search_range =
     0 # walk (next_split_point audio_data sample_rate smart_split search_range) 0 custom_durations"

section \<open>Slicing and writing\<close>

text \<open>
  For segment \<open>i\<close> both loops take \<^verbatim>\<open>start_sample = round(split_points[i] * sample_rate)\<close>
  and \<^verbatim>\<open>end_sample = min(round(split_points[i + 1] * sample_rate), len(audio_data))\<close>,
  and write \<^verbatim>\<open>audio_data[start_sample:end_sample]\<close>. There is no test on the two
  indices.
\<close>

definition start_sample :: "nat \<Rightarrow> rat list \<Rightarrow> nat \<Rightarrow> int" where
  "start_sample sample_rate split_points i = py_round (split_points ! i * of_nat sample_rate)"

definition end_sample :: "rat list \<Rightarrow> nat \<Rightarrow> rat list \<Rightarrow> nat \<Rightarrow> int" where
  "end_sample audio_data sample_rate split_points i =
     min (py_round (split_points ! Suc i * of_nat sample_rate)) (int (length audio_data))"

definition segment_data :: "rat list \<Rightarrow> nat \<Rightarrow> rat list \<Rightarrow> nat \<Rightarrow> rat list" where
  "segment_data audio_data sample_rate split_points i =
     py_slice audio_data (start_sample sample_rate split_points i)
       (end_sample audio_data sample_rate split_points i)"

text \<open>
  The trailing segment of the custom mode:
  \<^verbatim>\<open>audio_data[round(split_points[-1] * sample_rate):len(audio_data)]\<close>.
\<close>

definition last_segment_data :: "rat list \<Rightarrow> nat \<Rightarrow> rat list \<Rightarrow> rat list" where
  "last_segment_data audio_data sample_rate split_points =
     py_slice audio_data (py_round (last split_points * of_nat sample_rate))
       (int (length audio_data))"

text \<open>
  What the operations do to the world is a list of effects in the order they happen:
  creating the output directory, and writing part \<open>i\<close> (the number in the file name
  \<^verbatim>\<open><base>_part_<i, three digits><extension>\<close>) with its samples. An output file is
  named by its part number. Exceptions are values; \<open>split_audio\<close> catches them all.
  The model is the call with \<^verbatim>\<open>progress_callback=None\<close>.
\<close>

datatype exn = ZeroDivisionError | LoadError | MkdirError | WriteError

datatype effect = Mkdir | Write nat "rat list"

text \<open>
  The messages of the result triples, in the order of the source: the four checks of
  \<open>split_audio\<close>; the range check of the fixed mode; the three checks of the custom
  mode (the number is the 1-based index, the two rationals are the specified total and
  the audio duration); the two success messages (smart flag, number of files, and for
  the custom mode the length of a remainder that was skipped); the catch-all of
  \<open>split_audio\<close>; and the four checks of \<open>split_audio_by_video_durations\<close>.
\<close>

datatype message =
    MissingParameters
  | ConflictingParameters
  | FileNotFound
  | UnsupportedFormat
  | DurationTooLong
  | EmptyDurations
  | NonPositiveDuration nat
  | SpecifiedTooLong rat rat
  | FixedDone bool int
  | CustomDone bool nat "rat option"
  | ErrorDuring exn
  | AudioFileNotFound
  | UnsupportedAudioFormat
  | EmptyVideoDurations
  | NonPositiveVideoDuration nat

type_synonym result = "bool \<times> message \<times> nat list"

text \<open>
  The collaborators: whether the path exists, its suffix, what \<^verbatim>\<open>librosa.load\<close>
  returns or raises, whether \<^verbatim>\<open>mkdir\<close> succeeds, and whether \<^verbatim>\<open>sf.write\<close> of
  part \<open>i\<close> succeeds.
\<close>

record env =
  path_exists :: bool
  path_suffix :: string
  librosa_load :: "exn + rat list \<times> nat"
  mkdir_ok :: bool
  write_ok :: "nat \<Rightarrow> bool"

record request =
  segment_duration :: "rat option"
  custom_durations :: "rat list option"
  smart_split :: bool
  search_range :: rat

text \<open>
  \<^verbatim>\<open>Path(file_path).suffix.lower() in ['.mp3', '.wav']\<close>; only the letters A to Z
  matter for the comparison.
\<close>

definition lower :: "char \<Rightarrow> char" where
  "lower c = (if (65::nat) \<le> of_char c \<and> of_char c \<le> (90::nat)
              then char_of (of_char c + (32::nat)) else c)"

definition is_supported_format :: "env \<Rightarrow> bool" where
  "is_supported_format e \<longleftrightarrow> map lower (path_suffix e) \<in> {''.mp3'', ''.wav''}"

text \<open>The writes of a loop, part by part, stopping at the first one that raises.\<close>

fun write_all :: "(nat \<Rightarrow> bool) \<Rightarrow> nat \<Rightarrow> rat list list \<Rightarrow> effect list \<times> bool" where
  "write_all ok i [] = ([], True)"
| "write_all ok i (s # ss) =
     (if ok i
      then (let (es, finished) = write_all ok (Suc i) ss in (Write i s # es, finished))
      else ([], False))"

definition split_audio_fixed ::
  "env \<Rightarrow> rat list \<Rightarrow> nat \<Rightarrow> rat \<Rightarrow> rat \<Rightarrow> bool \<Rightarrow> rat \<Rightarrow> effect list \<times> (exn + result)" where
  "split_audio_fixed e audio_data sample_rate total_duration duration smart search =
     (if duration \<ge> total_duration then ([], Inr (False, DurationTooLong, []))
      else if duration = 0 then ([], Inl ZeroDivisionError)
      else
        let n = num_segments total_duration duration
        in if \<not> mkdir_ok e then ([], Inl MkdirError)
           else
             let split_points =
                   fixed_split_points audio_data sample_rate total_duration duration smart search;
                 (writes, finished) =
                   write_all (write_ok e) 1
                     (map (segment_data audio_data sample_rate split_points) [0 ..< nat n])
             in if finished then (Mkdir # writes, Inr (True, FixedDone smart n, map Suc [0 ..< nat n]))
                else (Mkdir # writes, Inl WriteError))"

definition split_audio_custom ::
  "env \<Rightarrow> rat list \<Rightarrow> nat \<Rightarrow> rat \<Rightarrow> rat list \<Rightarrow> bool \<Rightarrow> rat \<Rightarrow> effect list \<times> (exn + result)" where
  "split_audio_custom e audio_data sample_rate total_duration durations smart search =
     (if durations = [] then ([], Inr (False, EmptyDurations, []))
      else if \<exists>d \<in> set durations. d \<le> 0
      then ([], Inr (False, NonPositiveDuration (Suc (first_index (\<lambda>d. d \<le> 0) durations)), []))
      else
        let specified_total = sum_list durations;
            last_segment_duration = total_duration - specified_total
        in if specified_total \<ge> total_duration
           then ([], Inr (False, SpecifiedTooLong specified_total total_duration, []))
           else
             let create_last_segment = (last_segment_duration \<ge> 1)
             in if \<not> mkdir_ok e then ([], Inl MkdirError)
                else
                  let split_points =
                        custom_split_points audio_data sample_rate durations smart search;
                      segments =
                        map (segment_data audio_data sample_rate split_points)
                          [0 ..< length durations]
                        @ (if create_last_segment
                           then [last_segment_data audio_data sample_rate split_points] else []);
                      (writes, finished) = write_all (write_ok e) 1 segments
                  in if finished
                     then (Mkdir # writes,
                           Inr (True,
                                CustomDone smart (length segments)
                                  (if create_last_segment then None else Some last_segment_duration),
                                map Suc [0 ..< length segments]))
                     else (Mkdir # writes, Inl WriteError))"

text \<open>
  \<open>split_audio\<close>: the body inside \<^verbatim>\<open>try\<close>, and the handler
  \<^verbatim>\<open>except Exception as e: return False, ..., []\<close> around it.
\<close>

definition split_audio_body :: "env \<Rightarrow> request \<Rightarrow> effect list \<times> (exn + result)" where
  "split_audio_body e rq =
     (if segment_duration rq = None \<and> custom_durations rq = None
      then ([], Inr (False, MissingParameters, []))
      else if segment_duration rq \<noteq> None \<and> custom_durations rq \<noteq> None
      then ([], Inr (False, ConflictingParameters, []))
      else if \<not> path_exists e then ([], Inr (False, FileNotFound, []))
      else if \<not> is_supported_format e then ([], Inr (False, UnsupportedFormat, []))
      else
        case librosa_load e of
          Inl x \<Rightarrow> ([], Inl x)
        | Inr (audio_data, sample_rate) \<Rightarrow>
            if sample_rate = 0 then ([], Inl ZeroDivisionError)
            else
              let total_duration = of_nat (length audio_data) / of_nat sample_rate
              in (case custom_durations rq of
                    Some durations \<Rightarrow>
                      split_audio_custom e audio_data sample_rate total_duration durations
                        (smart_split rq) (search_range rq)
                  | None \<Rightarrow>
                      split_audio_fixed e audio_data sample_rate total_duration
                        (the (segment_duration rq)) (smart_split rq) (search_range rq)))"

definition split_audio :: "env \<Rightarrow> request \<Rightarrow> effect list \<times> result" where
  "split_audio e rq =
     (case split_audio_body e rq of
        (effects, Inl x) \<Rightarrow> (effects, (False, ErrorDuring x, []))
      | (effects, Inr r) \<Rightarrow> (effects, r))"


text \<open>The samples written, in the order of the writes.\<close>

fun written :: "effect list \<Rightarrow> rat list list" where
  "written [] = []"
| "written (Mkdir # es) = written es"
| "written (Write i s # es) = s # written es"


section \<open>The index of the least value\<close>

lemma first_index_less: "\<exists>x\<in>set xs. P x \<Longrightarrow> first_index P xs < length xs"
  by (induction xs) auto

lemma first_index_map_inj:
  assumes "inj g"
  shows "first_index (\<lambda>x. x = g m) (map g xs) = first_index (\<lambda>x. x = m) xs"
  using assms by (induction xs) (auto dest: injD)

lemma least_of_map_mono:
  assumes "mono f"
  shows "least_of (map (map_option f) xs) = map_option f (least_of xs)"
proof (induction xs)
  case Nil
  show ?case by simp
next
  case (Cons x xs)
  show ?case
  proof (cases x)
    case None
    with Cons show ?thesis by simp
  next
    case (Some v)
    with Cons assms show ?thesis
      by (cases "least_of xs") (simp_all add: mono_def min_def antisym)
  qed
qed

lemma least_of_in_set: "xs \<noteq> [] \<Longrightarrow> None \<notin> set xs \<Longrightarrow> least_of xs \<in> set xs"
proof (induction xs rule: least_of.induct)
  case 1
  then show ?case by simp
next
  case (2 xs)
  then show ?case by simp
next
  case (3 v xs)
  show ?case
  proof (cases xs)
    case Nil
    then show ?thesis by simp
  next
    case (Cons y ys)
    with 3 have mem: "least_of xs \<in> set xs" by simp
    from 3 have "None \<notin> set xs" by simp
    with mem have "least_of xs \<noteq> None" by metis
    then obtain m where "least_of xs = Some m" by auto
    with mem show ?thesis by (auto simp: min_def)
  qed
qed

lemma np_argmin_less: "xs \<noteq> [] \<Longrightarrow> np_argmin xs < length xs"
  unfolding np_argmin_def
  by (auto intro!: first_index_less dest: least_of_in_set)

text \<open>
  The square root is strictly increasing, so the least RMS value sits where the least
  mean square does, first occurrence included.
\<close>

lemma np_argmin_map_mono:
  assumes "strict_mono f"
  shows "np_argmin (map (map_option f) xs) = np_argmin xs"
proof -
  have inj: "inj (map_option f)"
    using assms by (simp add: option.inj_map strict_mono_imp_inj_on)
  have mono: "mono f"
    using assms by (rule strict_mono_mono)
  have none: "None \<in> set (map (map_option f) xs) \<longleftrightarrow> None \<in> set xs"
    by (auto simp: image_iff)
  have a: "first_index (\<lambda>x. x = None) (map (map_option f) xs) = first_index (\<lambda>x. x = None) xs"
    using first_index_map_inj [OF inj, of None xs] by simp
  have b: "first_index (\<lambda>x. x = least_of (map (map_option f) xs)) (map (map_option f) xs)
        = first_index (\<lambda>x. x = least_of xs) xs"
    using first_index_map_inj [OF inj, of "least_of xs" xs] least_of_map_mono [OF mono, of xs]
    by simp
  show ?thesis
    unfolding np_argmin_def using none a b by presburger
qed

lemma strict_mono_sqrt_of_rat: "strict_mono (\<lambda>m. sqrt (real_of_rat m))"
  by (simp add: strict_mono_def of_rat_less)

lemma rms_values_argmin:
  "np_argmin (map (\<lambda>i. rms (g i)) starts) = np_argmin (map (\<lambda>i. mean_square (g i)) starts)"
proof -
  have "map (\<lambda>i. rms (g i)) starts
      = map (map_option (\<lambda>m. sqrt (real_of_rat m))) (map (\<lambda>i. mean_square (g i)) starts)"
    by (simp add: rms_def)
  then show ?thesis
    by (simp only: np_argmin_map_mono [OF strict_mono_sqrt_of_rat])
qed

text \<open>
  The search written without the square root, which is how it is evaluated on
  concrete buffers below.
\<close>

lemma find_optimal_split_point_code [code]:
  "find_optimal_split_point audio_data sample_rate target search =
     (let start_time = search_start target search;
          found = search_audio audio_data sample_rate target search
      in if found = [] then target
         else
           let w = window_samples sample_rate (1 / 100);
               starts = window_starts found sample_rate (1 / 100)
           in if starts = [] then target
              else
                let k = np_argmin (map (\<lambda>i. mean_square (py_slice found i (i + w))) starts);
                    optimal_time = start_time + of_int (starts ! k) / of_nat sample_rate;
                    optimal_sample = py_round (optimal_time * of_nat sample_rate)
                in of_int optimal_sample / of_nat sample_rate)"
proof -
  define found where "found = search_audio audio_data sample_rate target search"
  define w where "w = window_samples sample_rate (1 / 100)"
  define starts where "starts = window_starts found sample_rate (1 / 100)"
  define k where "k = np_argmin (map (\<lambda>i. mean_square (py_slice found i (i + w))) starts)"
  have k: "np_argmin (map (\<lambda>i. rms (py_slice found i (i + w))) starts) = k"
    unfolding k_def by (rule rms_values_argmin)
  have nth: "map (\<lambda>i. rat_of_int i / rat_of_nat sample_rate) starts ! k
      = rat_of_int (starts ! k) / rat_of_nat sample_rate" if "starts \<noteq> []"
  proof -
    have "k < length starts"
      using np_argmin_less [of "map (\<lambda>i. mean_square (py_slice found i (i + w))) starts"] that
      by (simp add: k_def)
    then show ?thesis by simp
  qed
  show ?thesis
    unfolding find_optimal_split_point_def analyze_audio_volume_def Let_def
    unfolding found_def [symmetric] w_def [symmetric] starts_def [symmetric]
    by (simp add: k nth k_def [symmetric])
qed

section \<open>Rounding and slicing\<close>

lemma py_round_of_int: "py_round (of_int n) = n"
  by (simp add: py_round_def)

lemma py_round_cases:
  "py_round x = \<lfloor>x\<rfloor> \<or> py_round x = \<lfloor>x\<rfloor> + 1"
  by (simp add: py_round_def Let_def)

lemma py_round_split:
  obtains "py_round x = \<lfloor>x\<rfloor>" and "x - of_int \<lfloor>x\<rfloor> \<le> 1 / 2"
  | "py_round x = \<lfloor>x\<rfloor> + 1" and "1 / 2 \<le> x - of_int \<lfloor>x\<rfloor>"
proof -
  define d where "d = x - of_int \<lfloor>x\<rfloor>"
  have r: "py_round x = (if d < 1 / 2 then \<lfloor>x\<rfloor> else if 1 / 2 < d then \<lfloor>x\<rfloor> + 1
                         else if even \<lfloor>x\<rfloor> then \<lfloor>x\<rfloor> else \<lfloor>x\<rfloor> + 1)"
    by (simp only: py_round_def Let_def d_def)
  consider "d < 1 / 2" | "1 / 2 < d" | "d = 1 / 2" by linarith
  then show thesis
  proof cases
    case 1
    with r have "py_round x = \<lfloor>x\<rfloor>" "d \<le> 1 / 2" by simp_all
    then show thesis using that(1) d_def by blast
  next
    case 2
    with r have "py_round x = \<lfloor>x\<rfloor> + 1" "1 / 2 \<le> d" by simp_all
    then show thesis using that(2) d_def by blast
  next
    case 3
    with r have "py_round x = \<lfloor>x\<rfloor> \<or> py_round x = \<lfloor>x\<rfloor> + 1" by simp
    moreover from 3 have "d \<le> 1 / 2" "1 / 2 \<le> d" by simp_all
    ultimately show thesis using that d_def by blast
  qed
qed

lemma py_round_lower: "of_int (py_round x) - 1 / 2 \<le> x"
proof (cases x rule: py_round_split)
  case 1
  have "of_int \<lfloor>x\<rfloor> \<le> x" by (rule of_int_floor_le)
  with 1 show ?thesis by linarith
next
  case 2
  then show ?thesis by (simp only: of_int_add of_int_1)
qed

lemma py_round_upper: "x \<le> of_int (py_round x) + 1 / 2"
proof (cases x rule: py_round_split)
  case 1
  then show ?thesis by linarith
next
  case 2
  have "x < of_int \<lfloor>x\<rfloor> + 1" by linarith
  with 2 show ?thesis by (simp only: of_int_add of_int_1)
qed

lemma py_round_mono: 
  assumes "x \<le> y" shows "py_round x \<le> py_round y"
proof (cases "\<lfloor>x\<rfloor> = \<lfloor>y\<rfloor>")
  case True
  with assms show ?thesis
    unfolding py_round_def Let_def by (auto split: if_splits)
next
  case False
  with assms have "\<lfloor>x\<rfloor> + 1 \<le> \<lfloor>y\<rfloor>"
    using floor_mono [OF assms] by linarith
  moreover have "py_round x \<le> \<lfloor>x\<rfloor> + 1" using py_round_cases [of x] by linarith
  moreover have "\<lfloor>y\<rfloor> \<le> py_round y" using py_round_cases [of y] by linarith
  ultimately show ?thesis by linarith
qed

lemma py_round_nonneg: "0 \<le> x \<Longrightarrow> 0 \<le> py_round x"
  using py_round_mono [of 0 x] py_round_of_int [of 0] by simp

lemma py_round_le_int: "x \<le> of_int n \<Longrightarrow> py_round x \<le> n"
  using py_round_mono [of x "of_int n"] py_round_of_int [of n] by simp

lemma py_round_ge_int: "of_int n \<le> x \<Longrightarrow> n \<le> py_round x"
  using py_round_mono [of "of_int n" x] py_round_of_int [of n] by simp



lemma py_index_nonneg: "0 \<le> i \<Longrightarrow> py_index n i = min i (int n)"
  by (simp add: py_index_def)




section \<open>The walk without the smart search\<close>

lemma length_walk: "length (walk place pos ds) = length ds"
  by (induction ds arbitrary: pos) (simp_all add: Let_def)








section \<open>Segments of a list of split points\<close>








lemma write_all_ok:
  assumes "\<forall>k. ok k"
  shows "\<exists>es. write_all ok i ss = (es, True) \<and> written es = ss"
proof (induction ss arbitrary: i)
  case Nil
  show ?case by simp
next
  case (Cons s ss)
  from Cons [of "Suc i"] obtain es where "write_all ok (Suc i) ss = (es, True)" "written es = ss"
    by blast
  moreover have "ok i" using assms by simp
  ultimately have "write_all ok i (s # ss) = (Write i s # es, True)" by simp
  then show ?case using \<open>written es = ss\<close> by simp
qed


section \<open>Successful requests\<close>




lemma custom_split_points_shape:
  "custom_split_points audio sr ds smart r \<noteq> []"
  "hd (custom_split_points audio sr ds smart r) = 0"
  "length (custom_split_points audio sr ds smart r) = Suc (length ds)"
  by (simp_all add: custom_split_points_def length_walk)




section \<open>Window positions and the search\<close>

lemma int_le_div_iff:
  fixes c :: int
  assumes "0 < c"
  shows "m \<le> q div c \<longleftrightarrow> m * c \<le> q"
proof -
  have "q div c = \<lfloor>rat_of_int q / rat_of_int c\<rfloor>"
    by (simp add: floor_divide_of_int_eq)
  then have "m \<le> q div c \<longleftrightarrow> rat_of_int m \<le> rat_of_int q / rat_of_int c"
    by (simp add: le_floor_iff)
  also have "\<dots> \<longleftrightarrow> rat_of_int m * rat_of_int c \<le> rat_of_int q"
    using assms by (simp add: pos_le_divide_eq)
  also have "\<dots> \<longleftrightarrow> m * c \<le> q"
    by (simp only: of_int_mult [symmetric] of_int_le_iff)
  finally show ?thesis .
qed

lemma py_range0_length:
  assumes "0 < step"
  shows "k < length (py_range0 stop step) \<longleftrightarrow> int k * step < stop"
proof -
  have "int k < (stop + step - 1) div step \<longleftrightarrow> int k + 1 \<le> (stop + step - 1) div step"
    by linarith
  also have "\<dots> \<longleftrightarrow> (int k + 1) * step \<le> stop + step - 1"
    by (rule int_le_div_iff [OF assms])
  also have "\<dots> \<longleftrightarrow> int k * step < stop"
    by (simp add: distrib_right)
  finally show ?thesis
    by (auto simp: py_range0_def)
qed

lemma py_range0_nth:
  "k < length (py_range0 stop step) \<Longrightarrow> py_range0 stop step ! k = int k * step"
  by (simp add: py_range0_def)

lemma py_range0_bounds:
  assumes "0 < step" "k < length (py_range0 stop step)"
  shows "0 \<le> py_range0 stop step ! k" "py_range0 stop step ! k < stop"
  using assms py_range0_length [OF assms(1), of k stop] by (simp_all add: py_range0_nth)

lemma window_samples_nonneg: "0 \<le> w \<Longrightarrow> 0 \<le> window_samples sr w"
  by (simp add: window_samples_def py_int_def)

lemma step_samples_pos: "0 < step_samples sr w"
  by (simp add: step_samples_def)

lemma window_starts_bounds:
  assumes "k < length (window_starts xs sr w)"
  shows "0 \<le> window_starts xs sr w ! k"
    and "window_starts xs sr w ! k < int (length xs) - window_samples sr w"
  using py_range0_bounds [OF step_samples_pos, of k "int (length xs) - window_samples sr w" sr w] assms
  by (simp_all add: window_starts_def)

lemma length_py_slice_le:
  assumes "0 \<le> a" "0 \<le> b"
  shows "int (length (py_slice xs a b)) \<le> b - a \<or> py_slice xs a b = []"
  using assms by (auto simp: py_slice_def py_index_def Let_def min_def)

text \<open>The result of the search in terms of the window start that it picks.\<close>

lemma find_optimal_split_point_cases:
  fixes audio sr target r
  defines "found \<equiv> search_audio audio sr target r"
  defines "starts \<equiv> window_starts found sr (1 / 100)"
  obtains "starts = []" "find_optimal_split_point audio sr target r = target"
  | k where "starts \<noteq> []" "k < length starts"
      "find_optimal_split_point audio sr target r
       = of_int (py_round ((search_start target r + of_int (starts ! k) / of_nat sr) * of_nat sr))
         / of_nat sr"
proof (cases "starts = []")
  case True
  then have "find_optimal_split_point audio sr target r = target"
    by (simp add: find_optimal_split_point_code Let_def found_def starts_def)
  with True show thesis by (rule that(1))
next
  case False
  then have "0 < length starts" by simp
  then have "int 0 * step_samples sr (1 / 100) < int (length found) - window_samples sr (1 / 100)"
    unfolding starts_def window_starts_def by (simp only: py_range0_length [OF step_samples_pos])
  moreover have "0 \<le> window_samples sr (1 / 100)"
    by (rule window_samples_nonneg) simp
  ultimately have ne: "found \<noteq> []" by auto
  define k where "k = np_argmin (map (\<lambda>i. mean_square
      (py_slice found i (i + window_samples sr (1 / 100)))) starts)"
  have "k < length starts"
    using np_argmin_less [of "map (\<lambda>i. mean_square
      (py_slice found i (i + window_samples sr (1 / 100)))) starts"] False
    by (simp add: k_def)
  moreover have "find_optimal_split_point audio sr target r
       = of_int (py_round ((search_start target r + of_int (starts ! k) / of_nat sr) * of_nat sr))
         / of_nat sr"
    using False ne
    by (simp add: find_optimal_split_point_code Let_def found_def [symmetric]
        starts_def [symmetric] k_def)
  ultimately show thesis using False by (intro that(2))
qed

lemma search_start_nonneg: "0 \<le> search_start target r"
  by (simp add: search_start_def)

lemma py_int_nonneg: "0 \<le> x \<Longrightarrow> py_int x = \<lfloor>x\<rfloor>"
  by (simp add: py_int_def)





section \<open>Requests that run to the end\<close>

text \<open>Boundaries are never negative.\<close>

lemma precise_time_nonneg: "0 \<le> t \<Longrightarrow> 0 \<le> precise_time sr t"
  by (simp add: precise_time_def py_round_nonneg)

lemma find_optimal_split_point_nonneg:
  assumes "0 \<le> target"
  shows "0 \<le> find_optimal_split_point audio sr target r"
proof (cases rule: find_optimal_split_point_cases
    [where audio = audio and sr = sr and target = target and r = r])
  case 1
  with assms show ?thesis by simp
next
  case (2 k)
  have "0 \<le> window_starts (search_audio audio sr target r) sr (1 / 100) ! k"
    using window_starts_bounds(1) [OF 2(2)] .
  then have "0 \<le> (search_start target r
      + of_int (window_starts (search_audio audio sr target r) sr (1 / 100) ! k) / of_nat sr)
      * of_nat sr"
    using search_start_nonneg [of target r] by simp
  then show ?thesis
    using 2(3) by (simp add: py_round_nonneg)
qed

lemma next_split_point_nonneg:
  "0 \<le> t \<Longrightarrow> 0 \<le> next_split_point audio sr smart r t"
  by (simp add: next_split_point_def precise_time_nonneg find_optimal_split_point_nonneg)

lemma walk_nonneg:
  assumes "\<And>t. 0 \<le> t \<Longrightarrow> 0 \<le> place t" and "0 \<le> pos" and "\<forall>d\<in>set ds. 0 < d"
  shows "\<forall>p\<in>set (walk place pos ds). 0 \<le> p"
  using assms(2,3)
proof (induction ds arbitrary: pos)
  case Nil
  show ?case by simp
next
  case (Cons d ds)
  have "0 \<le> place (pos + d)" using Cons.prems by (intro assms(1)) simp
  with Cons show ?case by (simp add: Let_def)
qed


text \<open>What the two modes do when the directory can be made and every write succeeds.\<close>

lemma split_audio_fixed_run:
  assumes "mkdir_ok e" "\<forall>i. write_ok e i" "d < tot" "d \<noteq> 0"
  shows "\<exists>effects. split_audio_fixed e audio sr tot d smart r
           = (effects, Inr (True, FixedDone smart (num_segments tot d),
                            map Suc [0 ..< nat (num_segments tot d)]))
         \<and> written effects = map (segment_data audio sr (fixed_split_points audio sr tot d smart r))
                                [0 ..< nat (num_segments tot d)]"
proof -
  from write_all_ok [OF assms(2), of 1
      "map (segment_data audio sr (fixed_split_points audio sr tot d smart r))
         [0 ..< nat (num_segments tot d)]"]
  obtain es where "write_all (write_ok e) 1
      (map (segment_data audio sr (fixed_split_points audio sr tot d smart r))
         [0 ..< nat (num_segments tot d)]) = (es, True)"
    and "written es = map (segment_data audio sr (fixed_split_points audio sr tot d smart r))
         [0 ..< nat (num_segments tot d)]"
    by blast
  then show ?thesis
    using assms by (simp add: split_audio_fixed_def Let_def)
qed

lemma split_audio_custom_run:
  fixes audio :: "rat list" and sr :: nat and smart :: bool and r :: rat
  assumes "mkdir_ok e" "\<forall>i. write_ok e i" "ds \<noteq> []" "\<forall>d\<in>set ds. 0 < d" "sum_list ds < tot"
  defines "sps \<equiv> custom_split_points audio sr ds smart r"
  defines "segments \<equiv> map (segment_data audio sr sps) [0 ..< length ds]
                       @ (if 1 \<le> tot - sum_list ds then [last_segment_data audio sr sps] else [])"
  shows "\<exists>effects. split_audio_custom e audio sr tot ds smart r
           = (effects, Inr (True,
                CustomDone smart (length segments)
                  (if 1 \<le> tot - sum_list ds then None else Some (tot - sum_list ds)),
                map Suc [0 ..< length segments]))
         \<and> written effects = segments"
proof -
  from write_all_ok [OF assms(2), of 1 segments]
  obtain es where "write_all (write_ok e) 1 segments = (es, True)" and "written es = segments"
    by blast
  moreover have "\<not> (\<exists>d\<in>set ds. d \<le> 0)" using assms(4) by (auto simp: not_le)
  ultimately show ?thesis
    using assms(1,3,5)
    by (simp add: split_audio_custom_def Let_def segments_def [symmetric] sps_def [symmetric]
        not_le)
qed





section \<open>Evaluation on numerals\<close>












section \<open>Durations of a whole number of samples\<close>




section \<open>Empty ranges\<close>

lemma walk_all_nonneg:
  assumes "\<forall>x\<in>set ds. 0 < x"
  shows "\<forall>p\<in>set (walk (next_split_point audio sr smart r) 0 ds). 0 \<le> p"
  using walk_nonneg [of "next_split_point audio sr smart r" 0 ds] assms
  by (simp add: next_split_point_nonneg)

lemma segment_data_degenerate:
  assumes "0 \<le> sps ! Suc i"
    and "end_sample audio sr sps i \<le> start_sample sr sps i"
  shows "segment_data audio sr sps i = []"
proof -
  have "0 \<le> py_round (sps ! Suc i * of_nat sr)"
    using assms(1) by (intro py_round_nonneg) simp
  then have "0 \<le> end_sample audio sr sps i"
    by (simp add: end_sample_def)
  with assms(2) show ?thesis
    by (simp add: segment_data_def py_slice_def py_index_def Let_def)
qed

section \<open>Reconstruction\<close>




section \<open>The shape of the split-point list\<close>




section \<open>The range of the search\<close>

text \<open>
  C3. The claim: the returned time always lies in the search window, clamped to the
  signal, and is a whole number of samples, also when the search finds no profile
  point and returns \<open>target_time\<close> unchanged. The two things disagree: the unchanged
  target need not be a whole number of samples, and the main path rounds to the
  nearest sample, which can lie below the lower end of the window. What holds, for a
  positive sample rate and a window whose upper end \<open>target_time + search_range / 2\<close> is
  not negative: without a profile point the result is \<open>target_time\<close> itself; with one,
  the result is the time of a sample index between 0 and the length of the buffer, at
  most half a sample period below the lower end of the clamped window and never above
  its upper end.
\<close>

theorem find_optimal_split_point_range:
  assumes sr: "0 < sr" and upper: "0 \<le> target + r / 2"
  shows "if window_starts (search_audio audio sr target r) sr (1 / 100) = []
         then find_optimal_split_point audio sr target r = target
         else (\<exists>k. 0 \<le> k \<and> k \<le> int (length audio)
                 \<and> find_optimal_split_point audio sr target r = of_int k / of_nat sr)
              \<and> search_start target r - 1 / (2 * of_nat sr)
                  \<le> find_optimal_split_point audio sr target r
              \<and> find_optimal_split_point audio sr target r \<le> search_end audio sr target r"
proof (cases rule: find_optimal_split_point_cases
    [where audio = audio and sr = sr and target = target and r = r])
  case 1
  then show ?thesis by simp
next
  case (2 k)
  define lo where "lo = search_start target r"
  define hi where "hi = search_end audio sr target r"
  define a where "a = py_int (lo * of_nat sr)"
  define b where "b = py_int (hi * of_nat sr)"
  define found where "found = search_audio audio sr target r"
  define w where "w = window_samples sr (1 / 100)"
  define i where "i = window_starts found sr (1 / 100) ! k"
  define x where "x = (lo + of_int i / of_nat sr) * of_nat sr"
  have srq: "(0::rat) < of_nat sr" using sr by simp
  have res: "find_optimal_split_point audio sr target r = of_int (py_round x) / of_nat sr"
    using 2(3) by (simp add: x_def lo_def i_def found_def)
  have lo0: "0 \<le> lo" by (simp add: lo_def search_start_nonneg)
  have hi0: "0 \<le> hi" using upper by (simp add: hi_def search_end_def)
  have hi_tot: "hi * of_nat sr \<le> of_nat (length audio)"
  proof -
    have "hi \<le> of_nat (length audio) / of_nat sr" by (simp add: hi_def search_end_def)
    then show ?thesis using srq by (simp add: pos_le_divide_eq)
  qed
  have a: "a = \<lfloor>lo * of_nat sr\<rfloor>" "0 \<le> a"
    using lo0 by (simp_all add: a_def py_int_nonneg)
  have b: "b = \<lfloor>hi * of_nat sr\<rfloor>" "0 \<le> b"
    using hi0 by (simp_all add: b_def py_int_nonneg)
  have b_hi: "of_int b \<le> hi * of_nat sr" by (simp add: b(1))
  have b_len: "b \<le> int (length audio)"
  proof -
    have "rat_of_int b \<le> rat_of_int (int (length audio))" using b_hi hi_tot by simp
    then show ?thesis by (simp only: of_int_le_iff)
  qed
  have w0: "0 \<le> w" unfolding w_def by (rule window_samples_nonneg) simp
  have i0: "0 \<le> i" and i1: "i < int (length found) - w"
    using window_starts_bounds [of k found sr "1 / 100"] 2(2)
    by (simp_all add: i_def found_def w_def)
  have "found \<noteq> []" using i0 i1 w0 by auto
  moreover have "found = py_slice audio a b"
    by (simp add: found_def search_audio_def a_def b_def lo_def hi_def)
  ultimately have len: "int (length found) \<le> b - a"
    using length_py_slice_le [OF a(2) b(2), of audio] by simp
  have xeq: "x = lo * of_nat sr + of_int i"
    using srq by (simp add: x_def distrib_right)
  have "lo * of_nat sr < of_int a + 1" unfolding a(1) by linarith
  then have "x < of_int (a + 1 + i)" by (simp add: xeq)
  moreover have "a + 1 + i \<le> b - w" using i1 len by linarith
  then have "rat_of_int (a + 1 + i) \<le> of_int (b - w)" by (simp only: of_int_le_iff)
  ultimately have "x \<le> of_int (b - w)" by linarith
  then have r_le: "py_round x \<le> b - w" by (rule py_round_le_int)
  then have r_b: "py_round x \<le> b" using w0 by linarith
  have x0: "0 \<le> x" using lo0 i0 srq by (simp add: xeq)
  then have r0: "0 \<le> py_round x" by (rule py_round_nonneg)
  have "rat_of_int (py_round x) \<le> of_int b" using r_b by (simp only: of_int_le_iff)
  then have "rat_of_int (py_round x) \<le> hi * of_nat sr" using b_hi by linarith
  then have le_hi: "rat_of_int (py_round x) / of_nat sr \<le> hi"
    using srq by (simp add: pos_divide_le_eq)
  have "lo * of_nat sr - 1 / 2 \<le> rat_of_int (py_round x)"
    using py_round_upper [of x] i0 by (simp add: xeq)
  then have "(lo - 1 / (2 * of_nat sr)) * of_nat sr \<le> rat_of_int (py_round x)"
    using srq by (simp add: left_diff_distrib)
  then have ge_lo: "lo - 1 / (2 * of_nat sr) \<le> rat_of_int (py_round x) / of_nat sr"
    using srq by (simp add: pos_le_divide_eq)
  have "py_round x \<le> int (length audio)" using r_b b_len by linarith
  with r0 res have "\<exists>k. 0 \<le> k \<and> k \<le> int (length audio)
      \<and> find_optimal_split_point audio sr target r = of_int k / of_nat sr"
    by blast
  with 2(1) le_hi ge_lo show ?thesis
    by (simp add: res lo_def hi_def)
qed

theorem find_optimal_split_point_range_witness:
  "(0 :: nat) < 100 \<and> (0 :: rat) \<le> 1 / 25 + (1 / 25) / 2
   \<and> window_starts (search_audio [1, 1, 0, 1, 1, 1, 0, 1] 100 (1 / 25) (1 / 25)) 100 (1 / 100)
       \<noteq> []
   \<and> (\<exists>k. 0 \<le> k \<and> k \<le> int (length [1, 1, 0, 1, 1, 1, 0, 1 :: rat])
          \<and> find_optimal_split_point [1, 1, 0, 1, 1, 1, 0, 1] 100 (1 / 25) (1 / 25)
              = of_int k / of_nat 100)
   \<and> search_start (1 / 25) (1 / 25) - 1 / (2 * of_nat 100)
       \<le> find_optimal_split_point [1, 1, 0, 1, 1, 1, 0, 1] 100 (1 / 25) (1 / 25)
   \<and> find_optimal_split_point [1, 1, 0, 1, 1, 1, 0, 1] 100 (1 / 25) (1 / 25)
       \<le> search_end [1, 1, 0, 1, 1, 1, 0, 1] 100 (1 / 25) (1 / 25)"
proof -
  have h1: "(0 :: nat) < 100" by simp
  have h2: "(0 :: rat) \<le> 1 / 25 + (1 / 25) / 2" by simp
  have ne: "window_starts (search_audio [1, 1, 0, 1, 1, 1, 0, 1] 100 (1 / 25) (1 / 25)) 100
              (1 / 100) \<noteq> []"
    by code_simp
  show ?thesis
    using h1 h2 ne find_optimal_split_point_range [OF h1 h2, of "[1, 1, 0, 1, 1, 1, 0, 1]"]
    by simp
qed


theorem find_optimal_split_point_range_counterexample:
  "find_optimal_split_point [0] 100 (1 / 200) 2 = 1 / 200
   \<and> of_int \<lfloor>(1 / 200 :: rat) * of_nat 100\<rfloor> \<noteq> (1 / 200 :: rat) * of_nat 100
   \<and> find_optimal_split_point (replicate 12 0) 100 (53 / 1000) (1 / 10) = 0
   \<and> (0 :: rat) < max 0 (53 / 1000 - (1 / 10) / 2)
   \<and> find_optimal_split_point (replicate 12 0) 100 (- (1 / 20)) (1 / 50) = 0
   \<and> min (of_nat (length (replicate 12 (0 :: rat))) / of_nat 100) (- (1 / 20) + (1 / 50) / 2)
       < (0 :: rat)"
  by code_simp

section \<open>The volume profile\<close>





section \<open>Invalid fixed durations\<close>

text \<open>
  C5. The claim: a fixed-duration request with \<open>segment_duration \<le> 0\<close> fails with an
  invalid-duration result. The fixed mode tests only \<^verbatim>\<open>segment_duration >= total_duration\<close>;
  the custom mode and the caller in the user interface both test \<^verbatim>\<open>duration <= 0\<close>.
  On a ten-second signal (ten samples at 1 Hz) with \<open>segment_duration = -3\<close> the number
  of segments is \<open>\<lceil>10 / -3\<rceil> = -3\<close>, both loops are empty, the output directory is
  created, and the call reports success with no file.
\<close>

theorem fixed_negative_duration_succeeds:
  "split_audio
     \<lparr>path_exists = True, path_suffix = ''.wav'', librosa_load = Inr (replicate 10 0, 1),
      mkdir_ok = True, write_ok = (\<lambda>i. True)\<rparr>
     \<lparr>segment_duration = Some (- 3), custom_durations = None, smart_split = False,
      search_range = 2\<rparr>
   = ([Mkdir], (True, FixedDone False (- 3), []))"
  by code_simp

section \<open>The trailing remainder\<close>



section \<open>The fixed mode\<close>




section \<open>Degenerate ranges\<close>

text \<open>
  C8. The claim: a range with \<open>end_sample \<le> start_sample\<close> is surfaced as an
  internal failure, never written as an empty segment. Neither loop compares the two
  indices. What holds, when the directory can be made and every write succeeds: a valid
  fixed request (\<open>0 < segment_duration < total_duration\<close>) succeeds and writes
  \<open>num_segments\<close> files, a valid custom request succeeds and writes a file for each
  duration, and every one of these segments whose range is degenerate is written as an
  empty file and listed among the output files like the others.
\<close>

theorem degenerate_ranges_are_written:
  assumes io: "mkdir_ok e" "\<forall>i. write_ok e i"
  shows "(0 < d \<and> d < tot \<longrightarrow>
           (\<exists>effects msg files.
              split_audio_fixed e audio sr tot d smart r = (effects, Inr (True, msg, files))
            \<and> length (written effects) = nat (num_segments tot d)
            \<and> length files = nat (num_segments tot d)
            \<and> (\<forall>i<nat (num_segments tot d).
                  end_sample audio sr (fixed_split_points audio sr tot d smart r) i
                    \<le> start_sample sr (fixed_split_points audio sr tot d smart r) i
                  \<longrightarrow> written effects ! i = [])))
       \<and> (ds \<noteq> [] \<and> (\<forall>x\<in>set ds. 0 < x) \<and> sum_list ds < tot \<longrightarrow>
           (\<exists>effects msg files.
              split_audio_custom e audio sr tot ds smart r = (effects, Inr (True, msg, files))
            \<and> length ds \<le> length (written effects)
            \<and> length files = length (written effects)
            \<and> (\<forall>i<length ds.
                  end_sample audio sr (custom_split_points audio sr ds smart r) i
                    \<le> start_sample sr (custom_split_points audio sr ds smart r) i
                  \<longrightarrow> written effects ! i = [])))"
proof (intro conjI impI)
  assume v: "0 < d \<and> d < tot"
  define n where "n = nat (num_segments tot d)"
  define sps where "sps = fixed_split_points audio sr tot d smart r"
  from v have d0: "d \<noteq> 0" and lt: "d < tot" by simp_all
  from split_audio_fixed_run [OF io lt d0, of audio sr smart r]
  obtain effects where run: "split_audio_fixed e audio sr tot d smart r
      = (effects, Inr (True, FixedDone smart (num_segments tot d), map Suc [0 ..< n]))"
    and w: "written effects = map (segment_data audio sr sps) [0 ..< n]"
    unfolding n_def sps_def by blast
  have nonneg: "\<forall>p\<in>set sps. 0 \<le> p"
    using walk_all_nonneg [of "replicate (nat (num_segments tot d - 1)) d" audio sr smart r] v
    by (auto simp: sps_def fixed_split_points_def)
  have len: "length sps = nat (num_segments tot d - 1) + 2"
    by (simp add: sps_def fixed_split_points_def length_walk)
  have empty: "written effects ! i = []"
    if "i < n" "end_sample audio sr sps i \<le> start_sample sr sps i" for i
  proof -
    have "Suc i < length sps" using that(1) len by (simp add: n_def)
    then have "0 \<le> sps ! Suc i" using nonneg by simp
    from segment_data_degenerate [OF this that(2)] that(1) w show ?thesis by simp
  qed
  show "\<exists>effects msg files.
          split_audio_fixed e audio sr tot d smart r = (effects, Inr (True, msg, files))
        \<and> length (written effects) = nat (num_segments tot d)
        \<and> length files = nat (num_segments tot d)
        \<and> (\<forall>i<nat (num_segments tot d).
              end_sample audio sr (fixed_split_points audio sr tot d smart r) i
                \<le> start_sample sr (fixed_split_points audio sr tot d smart r) i
              \<longrightarrow> written effects ! i = [])"
    using run w empty
    by (intro exI [of _ effects] exI [of _ "FixedDone smart (num_segments tot d)"]
        exI [of _ "map Suc [0 ..< n]"]) (simp add: n_def sps_def)
next
  assume v: "ds \<noteq> [] \<and> (\<forall>x\<in>set ds. 0 < x) \<and> sum_list ds < tot"
  define sps where "sps = custom_split_points audio sr ds smart r"
  define segments where "segments = map (segment_data audio sr sps) [0 ..< length ds]
      @ (if 1 \<le> tot - sum_list ds then [last_segment_data audio sr sps] else [])"
  from v have v1: "ds \<noteq> []" and v2: "\<forall>x\<in>set ds. 0 < x" and v3: "sum_list ds < tot"
    by simp_all
  from split_audio_custom_run [OF io v1 v2 v3, of audio sr smart r]
  obtain effects where run: "split_audio_custom e audio sr tot ds smart r
      = (effects, Inr (True,
           CustomDone smart (length segments)
             (if 1 \<le> tot - sum_list ds then None else Some (tot - sum_list ds)),
           map Suc [0 ..< length segments]))"
    and w: "written effects = segments"
    unfolding segments_def sps_def by blast
  have nonneg: "\<forall>p\<in>set sps. 0 \<le> p"
    using walk_all_nonneg [OF v2, of audio sr smart r]
    by (auto simp: sps_def custom_split_points_def)
  have len: "length sps = Suc (length ds)"
    by (simp add: sps_def custom_split_points_shape)
  have empty: "written effects ! i = []"
    if "i < length ds" "end_sample audio sr sps i \<le> start_sample sr sps i" for i
  proof -
    have "0 \<le> sps ! Suc i" using that(1) len nonneg by simp
    from segment_data_degenerate [OF this that(2)] that(1) w show ?thesis
      by (simp add: segments_def nth_append)
  qed
  have "length ds \<le> length segments" by (simp add: segments_def)
  then show "\<exists>effects msg files.
          split_audio_custom e audio sr tot ds smart r = (effects, Inr (True, msg, files))
        \<and> length ds \<le> length (written effects)
        \<and> length files = length (written effects)
        \<and> (\<forall>i<length ds.
              end_sample audio sr (custom_split_points audio sr ds smart r) i
                \<le> start_sample sr (custom_split_points audio sr ds smart r) i
              \<longrightarrow> written effects ! i = [])"
    using run w empty
    by (intro exI [of _ effects]
        exI [of _ "CustomDone smart (length segments)
             (if 1 \<le> tot - sum_list ds then None else Some (tot - sum_list ds))"]
        exI [of _ "map Suc [0 ..< length segments]"]) (simp add: sps_def)
qed

theorem degenerate_ranges_are_written_witness:
  "(0 :: rat) < 4 / 25 \<and> (4 / 25 :: rat) < 1
   \<and> end_sample [0, 1, 2, 3, 4, 5, 6, 7, 8, 9] 10
         (fixed_split_points [0, 1, 2, 3, 4, 5, 6, 7, 8, 9] 10 1 (4 / 25) False 2) 6
       \<le> start_sample 10
         (fixed_split_points [0, 1, 2, 3, 4, 5, 6, 7, 8, 9] 10 1 (4 / 25) False 2) 6
   \<and> (\<exists>effects msg files.
         split_audio_fixed
           \<lparr>path_exists = True, path_suffix = ''.wav'',
            librosa_load = Inr ([0, 1, 2, 3, 4, 5, 6, 7, 8, 9], 10),
            mkdir_ok = True, write_ok = (\<lambda>i. True)\<rparr>
           [0, 1, 2, 3, 4, 5, 6, 7, 8, 9] 10 1 (4 / 25) False 2
         = (effects, Inr (True, msg, files))
       \<and> length (written effects) = 7 \<and> length files = 7 \<and> written effects ! 6 = [])
   \<and> (1 / 5 :: rat) + 1 / 5 < 4
   \<and> end_sample [0, 1, 2, 3, 4, 5, 6, 7] 2
         (custom_split_points [0, 1, 2, 3, 4, 5, 6, 7] 2 [1 / 5, 1 / 5] False 2) 0
       \<le> start_sample 2
         (custom_split_points [0, 1, 2, 3, 4, 5, 6, 7] 2 [1 / 5, 1 / 5] False 2) 0
   \<and> (\<exists>effects msg files.
         split_audio_custom
           \<lparr>path_exists = True, path_suffix = ''.wav'',
            librosa_load = Inr ([0, 1, 2, 3, 4, 5, 6, 7], 2),
            mkdir_ok = True, write_ok = (\<lambda>i. True)\<rparr>
           [0, 1, 2, 3, 4, 5, 6, 7] 2 4 [1 / 5, 1 / 5] False 2
         = (effects, Inr (True, msg, files))
       \<and> length files = length (written effects) \<and> written effects ! 0 = [])"
proof -
  let ?b = "[0, 1, 2, 3, 4, 5, 6, 7, 8, 9 :: rat]"
  let ?a = "[0, 1, 2, 3, 4, 5, 6, 7 :: rat]"
  let ?eb = "\<lparr>path_exists = True, path_suffix = ''.wav'',
            librosa_load = Inr (?b, 10 :: nat),
            mkdir_ok = True, write_ok = (\<lambda>i. True)\<rparr>"
  let ?ea = "\<lparr>path_exists = True, path_suffix = ''.wav'',
            librosa_load = Inr (?a, 2 :: nat),
            mkdir_ok = True, write_ok = (\<lambda>i. True)\<rparr>"
  have iob: "mkdir_ok ?eb" "\<forall>i. write_ok ?eb i" by simp_all
  have ioa: "mkdir_ok ?ea" "\<forall>i. write_ok ?ea i" by simp_all
  have v: "(0 :: rat) < 4 / 25 \<and> (4 / 25 :: rat) < 1" by simp
  have n: "nat (num_segments 1 (4 / 25)) = 7" by code_simp
  have deg: "end_sample ?b 10 (fixed_split_points ?b 10 1 (4 / 25) False 2) 6
       \<le> start_sample 10 (fixed_split_points ?b 10 1 (4 / 25) False 2) 6"
    by code_simp
  have six: "(6 :: nat) < 7" by simp
  from degenerate_ranges_are_written [OF iob, where d = "4 / 25" and tot = 1 and audio = ?b
      and sr = 10 and smart = False and r = 2] v
  obtain effects msg files where
    f1: "split_audio_fixed ?eb ?b 10 1 (4 / 25) False 2 = (effects, Inr (True, msg, files))"
    and f2: "length (written effects) = 7" and f3: "length files = 7"
    and f4: "\<forall>i<7. end_sample ?b 10 (fixed_split_points ?b 10 1 (4 / 25) False 2) i
                  \<le> start_sample 10 (fixed_split_points ?b 10 1 (4 / 25) False 2) i
                \<longrightarrow> written effects ! i = []"
    unfolding n by blast
  from f4 six deg have f5: "written effects ! 6 = []" by blast
  have r1: "\<exists>effects msg files.
         split_audio_fixed ?eb ?b 10 1 (4 / 25) False 2 = (effects, Inr (True, msg, files))
       \<and> length (written effects) = 7 \<and> length files = 7 \<and> written effects ! 6 = []"
    using f1 f2 f3 f5 by blast
  have vc: "[1 / 5, 1 / 5 :: rat] \<noteq> [] \<and> (\<forall>x\<in>set [1 / 5, 1 / 5 :: rat]. 0 < x)
      \<and> sum_list [1 / 5, 1 / 5 :: rat] < 4"
    by simp
  have s: "(1 / 5 :: rat) + 1 / 5 < 4" by simp
  have degc: "end_sample ?a 2 (custom_split_points ?a 2 [1 / 5, 1 / 5] False 2) 0
       \<le> start_sample 2 (custom_split_points ?a 2 [1 / 5, 1 / 5] False 2) 0"
    by code_simp
  have zero: "(0 :: nat) < length [1 / 5, 1 / 5 :: rat]" by simp
  from degenerate_ranges_are_written [OF ioa, where ds = "[1 / 5, 1 / 5]" and tot = 4
      and audio = ?a and sr = 2 and smart = False and r = 2] vc
  obtain effects' msg' files' where
    g1: "split_audio_custom ?ea ?a 2 4 [1 / 5, 1 / 5] False 2
         = (effects', Inr (True, msg', files'))"
    and g3: "length files' = length (written effects')"
    and g4: "\<forall>i<length [1 / 5, 1 / 5 :: rat].
                end_sample ?a 2 (custom_split_points ?a 2 [1 / 5, 1 / 5] False 2) i
                  \<le> start_sample 2 (custom_split_points ?a 2 [1 / 5, 1 / 5] False 2) i
                \<longrightarrow> written effects' ! i = []"
    by blast
  from g4 zero degc have g5: "written effects' ! 0 = []" by blast
  have r2: "\<exists>effects msg files.
         split_audio_custom ?ea ?a 2 4 [1 / 5, 1 / 5] False 2 = (effects, Inr (True, msg, files))
       \<and> length files = length (written effects) \<and> written effects ! 0 = []"
    using g1 g3 g5 by blast
  show ?thesis
    by (intro conjI) (fact v [THEN conjunct1] v [THEN conjunct2] deg r1 s degc r2)+
qed

theorem degenerate_ranges_are_written_counterexample:
  "split_audio
     \<lparr>path_exists = True, path_suffix = ''.wav'',
      librosa_load = Inr ([0, 1, 2, 3, 4, 5, 6, 7, 8, 9], 10),
      mkdir_ok = True, write_ok = (\<lambda>i. True)\<rparr>
     \<lparr>segment_duration = Some (4 / 25), custom_durations = None, smart_split = False,
      search_range = 2\<rparr>
   = ([Mkdir, Write 1 [0, 1], Write 2 [2, 3], Write 3 [4, 5], Write 4 [6, 7], Write 5 [8, 9],
       Write 6 [], Write 7 []],
      (True, FixedDone False 7, [1, 2, 3, 4, 5, 6, 7]))
   \<and> start_sample 10
         (fixed_split_points [0, 1, 2, 3, 4, 5, 6, 7, 8, 9] 10 1 (4 / 25) False 2) 5 = 10
   \<and> end_sample [0, 1, 2, 3, 4, 5, 6, 7, 8, 9] 10
         (fixed_split_points [0, 1, 2, 3, 4, 5, 6, 7, 8, 9] 10 1 (4 / 25) False 2) 5 = 10
   \<and> start_sample 10
         (fixed_split_points [0, 1, 2, 3, 4, 5, 6, 7, 8, 9] 10 1 (4 / 25) False 2) 6 = 12
   \<and> end_sample [0, 1, 2, 3, 4, 5, 6, 7, 8, 9] 10
         (fixed_split_points [0, 1, 2, 3, 4, 5, 6, 7, 8, 9] 10 1 (4 / 25) False 2) 6 = 10"
  by code_simp

section \<open>The engine boundary\<close>

text \<open>What the checks of \<open>split_audio\<close> and of the custom mode report.\<close>

lemma split_audio_validation_failures:
  shows "segment_duration rq = None \<Longrightarrow> custom_durations rq = None \<Longrightarrow>
           split_audio e rq = ([], (False, MissingParameters, []))"
    and "segment_duration rq \<noteq> None \<Longrightarrow> custom_durations rq \<noteq> None \<Longrightarrow>
           split_audio e rq = ([], (False, ConflictingParameters, []))"
    and "segment_duration rq = None \<longleftrightarrow> custom_durations rq \<noteq> None \<Longrightarrow> \<not> path_exists e \<Longrightarrow>
           split_audio e rq = ([], (False, FileNotFound, []))"
    and "segment_duration rq = None \<longleftrightarrow> custom_durations rq \<noteq> None \<Longrightarrow> path_exists e \<Longrightarrow>
           \<not> is_supported_format e \<Longrightarrow>
           split_audio e rq = ([], (False, UnsupportedFormat, []))"
  by (auto simp: split_audio_def split_audio_body_def)

lemma split_audio_custom_failures:
  shows "split_audio_custom e audio sr tot [] smart r = ([], Inr (False, EmptyDurations, []))"
    and "ds \<noteq> [] \<Longrightarrow> \<exists>x\<in>set ds. x \<le> 0 \<Longrightarrow>
           split_audio_custom e audio sr tot ds smart r
           = ([], Inr (False, NonPositiveDuration (Suc (first_index (\<lambda>x. x \<le> 0) ds)), []))"
    and "ds \<noteq> [] \<Longrightarrow> \<forall>x\<in>set ds. 0 < x \<Longrightarrow> tot \<le> sum_list ds \<Longrightarrow>
           split_audio_custom e audio sr tot ds smart r
           = ([], Inr (False, SpecifiedTooLong (sum_list ds) tot, []))"
  by (auto simp: split_audio_custom_def Let_def not_le)

text \<open>An exception raised inside the body comes back as a failure result.\<close>

lemma split_audio_catches:
  "split_audio_body e rq = (effects, Inl x) \<Longrightarrow>
   split_audio e rq = (effects, (False, ErrorDuring x, []))"
  by (simp add: split_audio_def)

text \<open>
  C9. The claim: no exception escapes \<open>split_audio\<close>, and every validation error,
  a non-positive duration among them, is reported with \<open>success = false\<close>. The handler
  does catch every exception, and the custom mode rejects a non-positive duration, but
  the fixed mode does not test for one: on a two-second signal (four samples at 2 Hz)
  with \<open>segment_duration = -1/2\<close> the call creates the output directory and returns
  success with no file.
\<close>

theorem negative_duration_reported_as_success:
  "split_audio
     \<lparr>path_exists = True, path_suffix = ''.mp3'', librosa_load = Inr ([0, 1, 2, 3], 2),
      mkdir_ok = True, write_ok = (\<lambda>i. True)\<rparr>
     \<lparr>segment_duration = Some (- (1 / 2)), custom_durations = None, smart_split = True,
      search_range = 2\<rparr>
   = ([Mkdir], (True, FixedDone True (- 4), []))"
  by code_simp

section \<open>Failures and side effects\<close>

lemma split_audio_failure_effects:
  assumes "split_audio e rq = (effects, (False, msg, files))"
    and "msg \<noteq> ErrorDuring WriteError"
  shows "effects = [] \<and> files = []"
  using assms
  unfolding split_audio_def split_audio_body_def split_audio_fixed_def split_audio_custom_def
  by (auto simp: Let_def split: if_splits sum.splits prod.splits option.splits)

text \<open>
  C10. Whenever \<open>split_audio\<close> returns a failure other than the one caused by a write
  that raised, nothing has happened: no directory was created, no file was written,
  and the list of output files is empty. This covers every validation and range
  failure, and also the exceptions raised before the directory is created.
\<close>

theorem failed_validation_has_no_effect:
  assumes "snd (split_audio e rq) = (False, msg, files)"
    and "msg \<noteq> ErrorDuring WriteError"
  shows "fst (split_audio e rq) = [] \<and> files = []"
proof -
  obtain effects where "split_audio e rq = (effects, (False, msg, files))"
    using assms(1) by (cases "split_audio e rq") simp
  then show ?thesis
    using split_audio_failure_effects [of e rq effects msg files] assms(2) by simp
qed

theorem failed_validation_has_no_effect_witness:
  "snd (split_audio
          \<lparr>path_exists = True, path_suffix = ''.mp3'', librosa_load = Inr (replicate 10 0, 1),
           mkdir_ok = True, write_ok = (\<lambda>i. True)\<rparr>
          \<lparr>segment_duration = Some 15, custom_durations = None, smart_split = False,
           search_range = 2\<rparr>)
     = (False, DurationTooLong, [])
   \<and> DurationTooLong \<noteq> ErrorDuring WriteError
   \<and> fst (split_audio
          \<lparr>path_exists = True, path_suffix = ''.mp3'', librosa_load = Inr (replicate 10 0, 1),
           mkdir_ok = True, write_ok = (\<lambda>i. True)\<rparr>
          \<lparr>segment_duration = Some 15, custom_durations = None, smart_split = False,
           search_range = 2\<rparr>) = []"
proof -
  have h: "snd (split_audio
          \<lparr>path_exists = True, path_suffix = ''.mp3'', librosa_load = Inr (replicate 10 0, 1),
           mkdir_ok = True, write_ok = (\<lambda>i. True)\<rparr>
          \<lparr>segment_duration = Some 15, custom_durations = None, smart_split = False,
           search_range = 2\<rparr>)
     = (False, DurationTooLong, [])"
    by code_simp
  have m: "DurationTooLong \<noteq> ErrorDuring WriteError"
    by simp
  show ?thesis
    using h m failed_validation_has_no_effect [OF h m] by simp
qed

end
